theory Spec2Isabelle
  imports Complex_Main
begin

section \<open>Message height cache (lib/utils/messageHeightCache.ts)\<close>

text \<open>
  The design note on virtual scrolling defines the class \<^verbatim>\<open>MessageHeightCache\<close>:
  a private \<^verbatim>\<open>Map<string, number>\<close> from message ids to heights and a private
  constant \<^verbatim>\<open>defaultHeight = 200\<close>. A height is any JavaScript number: a finite
  one (a real here; the two zeros are one), \<^verbatim>\<open>NaN\<close>, or one of the infinities.
  The map is a partial function from message ids to numbers; every method returns
  the new map where the source mutates it.
\<close>

datatype number = Num real | NaN | Infinity | NegInfinity

text \<open>
  A number in a boolean position, as the left operand of \<^verbatim>\<open>||\<close>: 0 and
  \<^verbatim>\<open>NaN\<close> are falsy, every other number is truthy.
\<close>

fun truthy :: "number \<Rightarrow> bool" where
  "truthy (Num r) = (r \<noteq> 0)"
| "truthy NaN = False"
| "truthy Infinity = True"
| "truthy NegInfinity = True"

type_synonym MessageHeightCache = "string \<rightharpoonup> number"

definition defaultHeight :: real where
  "defaultHeight = 200"

text \<open>
  \<^verbatim>\<open>get(messageId) { return this.cache.get(messageId) || this.defaultHeight; }\<close>
  The operator \<^verbatim>\<open>||\<close> yields its right operand when the left one is
  \<^verbatim>\<open>undefined\<close> (no entry) or a falsy number.
\<close>

definition get :: "MessageHeightCache \<Rightarrow> string \<Rightarrow> number" where
  "get c messageId =
     (case c messageId of
        None \<Rightarrow> Num defaultHeight
      | Some h \<Rightarrow> if truthy h then h else Num defaultHeight)"

text \<open>\<^verbatim>\<open>set(messageId, height) { this.cache.set(messageId, height); }\<close>\<close>

definition set_height :: "MessageHeightCache \<Rightarrow> string \<Rightarrow> number \<Rightarrow> MessageHeightCache" where
  "set_height c messageId h = c(messageId \<mapsto> h)"

text \<open>\<^verbatim>\<open>has(messageId) { return this.cache.has(messageId); }\<close>\<close>

definition has :: "MessageHeightCache \<Rightarrow> string \<Rightarrow> bool" where
  "has c messageId = (c messageId \<noteq> None)"

text \<open>\<^verbatim>\<open>clear() { this.cache.clear(); }\<close>\<close>

definition clear :: "MessageHeightCache \<Rightarrow> MessageHeightCache" where
  "clear c = Map.empty"

text \<open>
  A message as \<^verbatim>\<open>estimate\<close> reads it: its id, its optional text content
  (\<^verbatim>\<open>message.content?.length\<close>) and its optional parts, of which only the
  \<^verbatim>\<open>type\<close> tag is inspected (\<^verbatim>\<open>message.parts?.some(p => p.type === 'image')\<close>).
\<close>

record Part =
  type_of :: string

record Message =
  message_id :: string
  content :: "string option"
  parts :: "Part list option"

text \<open>\<^verbatim>\<open>String.prototype.includes\<close>: the needle occurs at some position.\<close>

fun includes_str :: "string \<Rightarrow> string \<Rightarrow> bool" where
  "includes_str [] needle = (needle = [])"
| "includes_str (x # xs) needle =
     (take (length needle) (x # xs) = needle \<or> includes_str xs needle)"

definition fence :: string where
  "fence = [CHR 0x60, CHR 0x60, CHR 0x60]"

definition contentLength :: "Message \<Rightarrow> nat" where
  "contentLength m = (case content m of None \<Rightarrow> 0 | Some s \<Rightarrow> length s)"

definition hasCode :: "Message \<Rightarrow> bool" where
  "hasCode m = (case content m of None \<Rightarrow> False | Some s \<Rightarrow> includes_str s fence)"

definition hasImages :: "Message \<Rightarrow> bool" where
  "hasImages m =
     (case parts m of None \<Rightarrow> False
      | Some ps \<Rightarrow> list_ex (\<lambda>p. type_of p = ''image'') ps)"

text \<open>
  \<^verbatim>\<open>estimate(message)\<close>: the cached answer when the id has an entry, otherwise
  the default height adjusted by the four content heuristics, in the source's order.
\<close>

definition estimate :: "MessageHeightCache \<Rightarrow> Message \<Rightarrow> number" where
  "estimate c m =
     (if has c (message_id m) then get c (message_id m)
      else
        Num (defaultHeight
             + (if contentLength m > 500 then 100 else 0)
             + (if contentLength m > 1000 then 200 else 0)
             + (if hasCode m then 150 else 0)
             + (if hasImages m then 300 else 0)))"

section \<open>Debounced storage hook (hooks/useDebouncedLocalStorage.ts)\<close>

text \<open>
  \<^verbatim>\<open>useDebouncedLocalStorage(key, initialValue, delay = 1000)\<close> keeps the value in
  React state and writes it to \<^verbatim>\<open>localStorage\<close> from an effect with the
  dependencies \<^verbatim>\<open>[key, storedValue, delay]\<close>.

  Time is the number of milliseconds on the event loop's clock. The event loop
  owns the pending timeouts, \<open>timers\<close>: for each its handle, the instant at which
  it fires and the value its callback captured, in the order of the
  \<^verbatim>\<open>setTimeout\<close> calls. \<^verbatim>\<open>timeoutRef\<close> is the ref of the hook: the handle of
  the last timeout set (a handle is truthy), or \<^verbatim>\<open>null\<close>. It keeps the handle
  after the timeout has fired. \<open>setItemCalls\<close> lists the calls
  \<^verbatim>\<open>localStorage.setItem(key, JSON.stringify(storedValue))\<close> the backend has
  received, oldest first; the payload stands for the serialised value. Values
  are equal in the model when \<^verbatim>\<open>Object.is\<close> holds of them.
\<close>

record 'v hook =
  storedValue :: 'v
  timeoutRef :: "nat option"
  timers :: "(nat \<times> nat \<times> 'v) list"
  nextHandle :: nat
  setItemCalls :: "(string \<times> 'v) list"

definition defaultDelay :: nat where
  "defaultDelay = 1000"

text \<open>
  \<^verbatim>\<open>setTimeout(callback, delay)\<close> at time \<open>now\<close>, for a callback that writes
  \<open>v\<close>: the event loop registers the timeout under a fresh handle.
\<close>

definition setTimeout :: "nat \<Rightarrow> 'v \<Rightarrow> 'v hook \<Rightarrow> 'v hook" where
  "setTimeout due v h =
     h\<lparr>timers := timers h @ [(nextHandle h, due, v)], nextHandle := Suc (nextHandle h)\<rparr>"

text \<open>
  \<^verbatim>\<open>clearTimeout(handle)\<close>: the timeout with that handle, if it is still
  pending, is removed and never fires.
\<close>

definition clearTimeout :: "nat \<Rightarrow> 'v hook \<Rightarrow> 'v hook" where
  "clearTimeout handle h =
     h\<lparr>timers := filter (\<lambda>(i, due, v). i \<noteq> handle) (timers h)\<rparr>"

text \<open>
  The body of the effect, run at time \<open>now\<close>:
  \<^verbatim>\<open>if (timeoutRef.current) clearTimeout(timeoutRef.current);
  timeoutRef.current = setTimeout(() => { ... setItem(key, JSON.stringify(storedValue)) ... }, delay);\<close>
\<close>

definition effect :: "nat \<Rightarrow> nat \<Rightarrow> 'v hook \<Rightarrow> 'v hook" where
  "effect delay now h =
     (let h1 = (case timeoutRef h of None \<Rightarrow> h | Some handle \<Rightarrow> clearTimeout handle h)
      in (setTimeout (now + delay) (storedValue h1) h1)\<lparr>timeoutRef := Some (nextHandle h1)\<rparr>)"

text \<open>
  The cleanup function the effect returns:
  \<^verbatim>\<open>if (timeoutRef.current) clearTimeout(timeoutRef.current);\<close>
\<close>

definition cleanup :: "'v hook \<Rightarrow> 'v hook" where
  "cleanup h = (case timeoutRef h of None \<Rightarrow> h | Some handle \<Rightarrow> clearTimeout handle h)"

text \<open>
  The event loop reaching time \<open>now\<close>: every pending timeout that is due runs
  its callback, one \<^verbatim>\<open>setItem\<close> call with the captured value each, the earliest
  first (and in the order they were set when due at the same instant).
\<close>

definition elapse :: "string \<Rightarrow> nat \<Rightarrow> 'v hook \<Rightarrow> 'v hook" where
  "elapse k now h =
     h\<lparr>timers := filter (\<lambda>(i, due, v). \<not> due \<le> now) (timers h),
       setItemCalls :=
         setItemCalls h
         @ map (\<lambda>(i, due, v). (k, v))
             (sort_key (\<lambda>(i, due, v). due)
                (filter (\<lambda>(i, due, v). due \<le> now) (timers h)))\<rparr>"

text \<open>
  A call \<^verbatim>\<open>setStoredValue(v)\<close> at time \<open>now\<close>. With the value already stored
  React renders nothing and runs no effect. Otherwise the state changes, the
  dependency \<^verbatim>\<open>storedValue\<close> has changed, and React runs the cleanup of the
  previous run and then the effect.
\<close>

definition setStoredValue :: "string \<Rightarrow> nat \<Rightarrow> nat \<Rightarrow> 'v \<Rightarrow> 'v hook \<Rightarrow> 'v hook" where
  "setStoredValue k delay now v h =
     (let h1 = elapse k now h
      in if v = storedValue h1 then h1
         else effect delay now (cleanup (h1\<lparr>storedValue := v\<rparr>)))"

text \<open>
  What \<^verbatim>\<open>window.localStorage.getItem(key)\<close> gives the state initialiser: no item,
  the empty string, a text that \<^verbatim>\<open>JSON.parse\<close> turns into a value, a text on which
  it throws, or an exception of \<^verbatim>\<open>getItem\<close> itself. The initialiser is
  \<^verbatim>\<open>item ? JSON.parse(item) : initialValue\<close>, with \<^verbatim>\<open>initialValue\<close> in the
  \<^verbatim>\<open>catch\<close>.
\<close>

datatype 'v stored_item = NoItem | EmptyText | JsonText 'v | BadText | ReadError

fun initialState :: "'v \<Rightarrow> 'v stored_item \<Rightarrow> 'v" where
  "initialState initialValue (JsonText v) = v"
| "initialState initialValue item = initialValue"

text \<open>The mount at time \<open>now\<close>: the state is initialised and the effect runs once.\<close>

definition mount :: "nat \<Rightarrow> nat \<Rightarrow> 'v \<Rightarrow> 'v stored_item \<Rightarrow> 'v hook" where
  "mount delay now initialValue item =
     effect delay now
       \<lparr>storedValue = initialState initialValue item, timeoutRef = None, timers = [],
        nextHandle = 1, setItemCalls = []\<rparr>"

text \<open>A sequence of timed calls of the setter, applied in order.\<close>

fun updates :: "string \<Rightarrow> nat \<Rightarrow> (nat \<times> 'v) list \<Rightarrow> 'v hook \<Rightarrow> 'v hook" where
  "updates k delay [] h = h"
| "updates k delay ((t, v) # us) h = updates k delay us (setStoredValue k delay t v h)"

text \<open>
  A burst: the calls are in time order and each arrives less than \<open>delay\<close>
  after the one before it.
\<close>

fun rapid :: "nat \<Rightarrow> (nat \<times> 'v) list \<Rightarrow> bool" where
  "rapid delay [] = True"
| "rapid delay [u] = True"
| "rapid delay ((t, v) # (t', v') # us) =
     (t \<le> t' \<and> t' < t + delay \<and> rapid delay ((t', v') # us))"

text \<open>Each value of the sequence differs from the one stored before it.\<close>

fun changing :: "'v \<Rightarrow> 'v list \<Rightarrow> bool" where
  "changing current [] = True"
| "changing current (v # vs) = (v \<noteq> current \<and> changing v vs)"

text \<open>
  Every pending timeout is the one \<^verbatim>\<open>timeoutRef\<close> refers to (so there is at most
  one).
\<close>

definition tracked :: "'v hook \<Rightarrow> bool" where
  "tracked h =
     (length (timers h) \<le> 1 \<and> list_all (\<lambda>(i, due, v). timeoutRef h = Some i) (timers h))"

section \<open>Storage write queue (hooks/useLocalStorageQueue.ts)\<close>

text \<open>
  \<^verbatim>\<open>type QueueItem = { key; value; priority: 'high' | 'normal' | 'low' }\<close>
\<close>

datatype Priority = High | Normal | Low

record 'v QueueItem =
  key :: string
  item_value :: 'v
  priority :: Priority

text \<open>\<^verbatim>\<open>const priorityOrder = { high: 0, normal: 1, low: 2 }\<close>\<close>

fun priorityOrder :: "Priority \<Rightarrow> nat" where
  "priorityOrder High = 0"
| "priorityOrder Normal = 1"
| "priorityOrder Low = 2"

text \<open>
  The class \<^verbatim>\<open>LocalStorageQueue\<close> has the fields \<^verbatim>\<open>queue\<close> and
  \<^verbatim>\<open>processing\<close>. The asynchronous method \<^verbatim>\<open>process\<close> is suspended at its
  \<^verbatim>\<open>await\<close> while one item, already shifted off the queue, waits for the idle
  callback that writes it: \<open>scheduled\<close> is that item. \<open>localStorage\<close> is the
  backend, and \<open>setItemAttempts\<close> records every item whose idle callback has
  run, in order (whether or not the write succeeded).
\<close>

record 'v LocalStorageQueue =
  queue :: "'v QueueItem list"
  processing :: bool
  scheduled :: "'v QueueItem option"
  localStorage :: "string \<rightharpoonup> 'v"
  setItemAttempts :: "'v QueueItem list"

definition storageQueue :: "'v LocalStorageQueue" where
  "storageQueue =
     \<lparr>queue = [], processing = False, scheduled = None,
      localStorage = Map.empty, setItemAttempts = []\<rparr>"

text \<open>
  One turn of the \<^verbatim>\<open>while (this.queue.length > 0)\<close> loop of \<^verbatim>\<open>process\<close>, up to
  its \<^verbatim>\<open>await\<close>: shift the first item and schedule its write with
  \<^verbatim>\<open>requestIdleCallback\<close> (or \<^verbatim>\<open>setTimeout(..., 0)\<close>); with an empty queue the
  loop ends and \<^verbatim>\<open>processing\<close> is reset.
\<close>

definition process_loop :: "'v LocalStorageQueue \<Rightarrow> 'v LocalStorageQueue" where
  "process_loop s =
     (case queue s of
        [] \<Rightarrow> s\<lparr>processing := False\<rparr>
      | item # rest \<Rightarrow> s\<lparr>queue := rest, scheduled := Some item\<rparr>)"

definition process :: "'v LocalStorageQueue \<Rightarrow> 'v LocalStorageQueue" where
  "process s = process_loop (s\<lparr>processing := True\<rparr>)"

text \<open>
  \<^verbatim>\<open>add(key, value, priority = 'normal')\<close>: remove the existing item with the
  same key, push the new item, sort by priority (\<^verbatim>\<open>Array.prototype.sort\<close> is
  stable), and start processing if it is not running.
\<close>

definition add :: "string \<Rightarrow> 'v \<Rightarrow> Priority \<Rightarrow> 'v LocalStorageQueue \<Rightarrow> 'v LocalStorageQueue" where
  "add k v p s =
     (let s' = s\<lparr>queue :=
                  sort_key (\<lambda>item. priorityOrder (priority item))
                    (filter (\<lambda>item. key item \<noteq> k) (queue s)
                     @ [\<lparr>key = k, item_value = v, priority = p\<rparr>])\<rparr>
      in if \<not> processing s' then process s' else s')"

text \<open>
  The idle callback of the scheduled item runs:
  \<^verbatim>\<open>localStorage.setItem(item.key, JSON.stringify(item.value)); resolve();\<close>
  When the write succeeds (\<open>ok\<close>) the promise resolves and \<^verbatim>\<open>process\<close> goes on
  with its loop. When \<^verbatim>\<open>setItem\<close> or \<^verbatim>\<open>JSON.stringify\<close> throws, the exception
  leaves the callback: \<^verbatim>\<open>resolve\<close> is never called, the \<^verbatim>\<open>catch\<close> around the
  \<^verbatim>\<open>await\<close> sees nothing, and \<^verbatim>\<open>process\<close> stays suspended.
\<close>

definition idle :: "bool \<Rightarrow> 'v LocalStorageQueue \<Rightarrow> 'v LocalStorageQueue" where
  "idle ok s =
     (case scheduled s of
        None \<Rightarrow> s
      | Some item \<Rightarrow>
          let s' = s\<lparr>scheduled := None, setItemAttempts := setItemAttempts s @ [item]\<rparr>
          in if ok
             then process_loop
                    (s'\<lparr>localStorage := (localStorage s)(key item \<mapsto> item_value item)\<rparr>)
             else s')"

text \<open>
  What happens to the queue: a caller adds a write, or the browser runs the
  scheduled idle callback, in which the write succeeds or throws.
\<close>

datatype 'v queue_event = Add string 'v Priority | Idle bool

fun queue_step :: "'v queue_event \<Rightarrow> 'v LocalStorageQueue \<Rightarrow> 'v LocalStorageQueue" where
  "queue_step (Add k v p) s = add k v p s"
| "queue_step (Idle ok) s = idle ok s"

fun queue_run :: "'v queue_event list \<Rightarrow> 'v LocalStorageQueue \<Rightarrow> 'v LocalStorageQueue" where
  "queue_run [] s = s"
| "queue_run (e # es) s = queue_run es (queue_step e s)"

fun is_add :: "'v queue_event \<Rightarrow> bool" where
  "is_add (Add k v p) = True"
| "is_add (Idle ok) = False"

text \<open>The writes that are still to be attempted: queued, or scheduled.\<close>

definition unattempted :: "'v LocalStorageQueue \<Rightarrow> nat" where
  "unattempted s = length (queue s) + (case scheduled s of None \<Rightarrow> 0 | Some item \<Rightarrow> 1)"

section \<open>Virtual message list (components/features/spaces/chat/virtual-message-list.tsx)\<close>

text \<open>
  The component receives \<^verbatim>\<open>messages\<close>, \<^verbatim>\<open>isStreaming\<close> and
  \<^verbatim>\<open>currentMessageId\<close>; it keeps the measured row heights in the ref
  \<^verbatim>\<open>rowHeights\<close> (by row index) and the flag \<^verbatim>\<open>isNearBottom\<close> in React state
  (initially \<^verbatim>\<open>true\<close>). \<open>listRef\<close> holds the height and the width that
  \<^verbatim>\<open>AutoSizer\<close> gives the mounted list, and nothing while no list is mounted.
\<close>

record VirtualMessageList =
  messages :: "Message list"
  isStreaming :: bool
  currentMessageId :: "string option"
  rowHeights :: "nat \<rightharpoonup> real"
  isNearBottom :: bool
  listRef :: "(real \<times> real) option"

text \<open>\<^verbatim>\<open>getRowHeight = (index) => rowHeights.current[index] || 200\<close>\<close>

definition getRowHeight :: "VirtualMessageList \<Rightarrow> nat \<Rightarrow> real" where
  "getRowHeight s index =
     (case rowHeights s index of
        None \<Rightarrow> 200
      | Some h \<Rightarrow> if h = 0 then 200 else h)"

text \<open>
  \<^verbatim>\<open>setRowHeight(index, size)\<close> stores a height that differs from the stored
  one (and asks the list to lay out again from that row).
\<close>

definition setRowHeight :: "nat \<Rightarrow> real \<Rightarrow> VirtualMessageList \<Rightarrow> VirtualMessageList" where
  "setRowHeight index sz s =
     (if rowHeights s index \<noteq> Some sz
      then s\<lparr>rowHeights := (rowHeights s)(index \<mapsto> sz)\<rparr>
      else s)"

text \<open>
  The properties the component passes to the list of \<^verbatim>\<open>react-window\<close>:
  \<^verbatim>\<open>height\<close>, \<^verbatim>\<open>width\<close>, \<^verbatim>\<open>itemCount={messages.length}\<close>,
  \<^verbatim>\<open>itemSize={getRowHeight}\<close> and \<^verbatim>\<open>overscanCount={5}\<close>.
\<close>

record ListProps =
  height :: real
  width :: real
  itemCount :: nat
  itemSize :: "nat \<Rightarrow> real"
  overscanCount :: nat

definition listProps :: "VirtualMessageList \<Rightarrow> real \<Rightarrow> real \<Rightarrow> ListProps" where
  "listProps s h w =
     \<lparr>height = h, width = w, itemCount = length (messages s),
      itemSize = getRowHeight s, overscanCount = 5\<rparr>"

text \<open>
  The list itself is the library's: which rows it mounts for given properties and
  a given scroll offset is the parameter \<open>window\<close>. The rows the component has
  in the DOM are the rows of that window, each rendered by \<^verbatim>\<open>Row\<close>, which hands
  the message to \<^verbatim>\<open>MessageComponent\<close> with
  \<^verbatim>\<open>isLast={index === messages.length - 1}\<close> and
  \<^verbatim>\<open>isStreaming={isStreaming && message.id === currentMessageId}\<close>.
\<close>

record RowProps =
  row_message :: Message
  isLast :: bool
  row_isStreaming :: bool

definition Row :: "VirtualMessageList \<Rightarrow> nat \<Rightarrow> RowProps option" where
  "Row s index =
     (if index < length (messages s)
      then Some \<lparr>row_message = messages s ! index,
                 isLast = (index = length (messages s) - 1),
                 row_isStreaming =
                   (isStreaming s \<and> Some (message_id (messages s ! index)) = currentMessageId s)\<rparr>
      else None)"

definition mounted ::
  "(ListProps \<Rightarrow> real \<Rightarrow> nat list) \<Rightarrow> VirtualMessageList \<Rightarrow> real \<Rightarrow> nat list" where
  "mounted window s scroll =
     (case listRef s of
        None \<Rightarrow> []
      | Some (h, w) \<Rightarrow> window (listProps s h w) scroll)"

definition rendered ::
  "(ListProps \<Rightarrow> real \<Rightarrow> nat list) \<Rightarrow> VirtualMessageList \<Rightarrow> real
     \<Rightarrow> (nat \<times> RowProps option) list" where
  "rendered window s scroll = map (\<lambda>index. (index, Row s index)) (mounted window s scroll)"

text \<open>
  The scroll callback of the list,
  \<^verbatim>\<open>handleScroll({ scrollOffset, scrollUpdateWasRequested })\<close>: a scroll the
  user made updates \<^verbatim>\<open>isNearBottom\<close>; one that the code requested does not.
\<close>

record ScrollEvent =
  scrollOffset :: real
  scrollUpdateWasRequested :: bool

definition listHeight :: "VirtualMessageList \<Rightarrow> real" where
  "listHeight s =
     (case listRef s of
        None \<Rightarrow> 0
      | Some (h, w) \<Rightarrow> if h = 0 then 0 else h)"

definition totalHeight :: "VirtualMessageList \<Rightarrow> real" where
  "totalHeight s = foldl (\<lambda>sum i. sum + getRowHeight s i) 0 [0..<length (messages s)]"

definition distanceFromBottom :: "VirtualMessageList \<Rightarrow> real \<Rightarrow> real" where
  "distanceFromBottom s offset = totalHeight s - (offset + listHeight s)"

definition handleScroll :: "ScrollEvent \<Rightarrow> VirtualMessageList \<Rightarrow> VirtualMessageList" where
  "handleScroll ev s =
     (if \<not> scrollUpdateWasRequested ev
      then s\<lparr>isNearBottom := (distanceFromBottom s (scrollOffset ev) < 100)\<rparr>
      else s)"

text \<open>
  The effect with the dependencies \<^verbatim>\<open>[messages.length, isNearBottom]\<close>:
  \<^verbatim>\<open>if (isNearBottom && messages.length > 0)
    listRef.current?.scrollToItem(messages.length - 1, 'end')\<close>.
  \<open>autoScroll\<close> is its body, the request it makes of the list, if any (with
  no list mounted, \<^verbatim>\<open>listRef.current?.\<close> makes none);
  \<open>scrollEffect\<close> is what React runs after a render that took the component
  from \<open>s\<close> to \<open>s'\<close>.
\<close>

datatype Align = AlignStart | AlignCenter | AlignEnd

datatype ScrollRequest = ScrollToItem nat Align

definition autoScroll :: "VirtualMessageList \<Rightarrow> ScrollRequest option" where
  "autoScroll s =
     (if isNearBottom s \<and> length (messages s) > 0
      then (case listRef s of
              None \<Rightarrow> None
            | Some list \<Rightarrow> Some (ScrollToItem (length (messages s) - 1) AlignEnd))
      else None)"

definition scrollEffect :: "VirtualMessageList \<Rightarrow> VirtualMessageList \<Rightarrow> ScrollRequest option" where
  "scrollEffect s s' =
     (if length (messages s') \<noteq> length (messages s) \<or> isNearBottom s' \<noteq> isNearBottom s
      then autoScroll s'
      else None)"

text \<open>The parent renders the component with one more message.\<close>

definition appendMessage :: "Message \<Rightarrow> VirtualMessageList \<Rightarrow> VirtualMessageList" where
  "appendMessage m s = s\<lparr>messages := messages s @ [m]\<rparr>"

text \<open>The component as first rendered for a list of messages.\<close>

definition initialList :: "Message list \<Rightarrow> (real \<times> real) option \<Rightarrow> VirtualMessageList" where
  "initialList ms ref =
     \<lparr>messages = ms, isStreaming = False, currentMessageId = None,
      rowHeights = Map.empty, isNearBottom = True, listRef = ref\<rparr>"

section \<open>Viewport windower\<close>

text \<open>
  Modelled from the spec: the windowing of the list, which the source leaves to
  \<^verbatim>\<open>VariableSizeList\<close> of the library \<^verbatim>\<open>react-window\<close>. The specification
  describes it as \<^verbatim>\<open>computeWindow(itemCount, heightOf, scrollOffset,
  viewportHeight, overscanCount) -> WindowRange\<close>: over the running sum of the
  heights, find the first index whose cumulative offset (the offset of its bottom
  edge) exceeds \<^verbatim>\<open>scrollOffset\<close> and the last index whose cumulative offset (the
  offset of its top edge) is below \<^verbatim>\<open>scrollOffset + viewportHeight\<close>, expand both
  ends by \<^verbatim>\<open>overscanCount\<close> items and clamp to \<^verbatim>\<open>[0, itemCount - 1]\<close>. No items
  give the empty range; a viewport not yet measured gives the first
  \<^verbatim>\<open>overscanCount * 2\<close> items.
\<close>

record WindowRange =
  startIndex :: nat
  endIndex :: nat
  offsets :: "real list"

definition topOffset :: "(nat \<Rightarrow> real) \<Rightarrow> nat \<Rightarrow> real" where
  "topOffset heightOf i = sum_list (map heightOf [0..<i])"

definition computeWindow ::
  "nat \<Rightarrow> (nat \<Rightarrow> real) \<Rightarrow> real \<Rightarrow> real \<Rightarrow> nat \<Rightarrow> WindowRange option" where
  "computeWindow n heightOf scroll viewportHeight overscan =
     (if n = 0 then None
      else if viewportHeight \<le> 0
      then Some \<lparr>startIndex = 0, endIndex = min (overscan * 2) n - 1,
                 offsets = map (topOffset heightOf) [0..<min (overscan * 2) n]\<rparr>
      else
        let first = (case find (\<lambda>i. scroll < topOffset heightOf (Suc i)) [0..<n] of
                       None \<Rightarrow> n - 1 | Some i \<Rightarrow> i);
            last = (case find (\<lambda>i. topOffset heightOf i < scroll + viewportHeight) (rev [0..<n]) of
                      None \<Rightarrow> 0 | Some i \<Rightarrow> i);
            start = first - overscan;
            stop = min (last + overscan) (n - 1)
        in Some \<lparr>startIndex = start, endIndex = stop,
                  offsets = map (topOffset heightOf) [start..<Suc stop]\<rparr>)"

text \<open>The windower as the list of the indices it mounts, for the list's properties.\<close>

definition specWindow :: "ListProps \<Rightarrow> real \<Rightarrow> nat list" where
  "specWindow props scroll =
     (case computeWindow (itemCount props) (itemSize props) scroll (height props)
             (overscanCount props) of
        None \<Rightarrow> []
      | Some r \<Rightarrow> [startIndex r..<Suc (endIndex r)])"

section \<open>Properties of the height cache\<close>

lemma includes_str_hd: "includes_str s (a # ns) \<Longrightarrow> a \<in> set s"
  by (induction s) (auto dest: in_set_takeD split: if_splits)

lemma includes_str_self: "includes_str needle needle"
  by (cases needle) simp_all

lemma includes_str_append: "includes_str (xs @ needle) needle"
  by (induction xs) (simp_all add: includes_str_self)

lemma no_fence_replicate: "c \<noteq> CHR 0x60 \<Longrightarrow> \<not> includes_str (replicate n c) fence"
  using includes_str_hd [of "replicate n c" "CHR 0x60" "[CHR 0x60, CHR 0x60]"]
  by (auto simp: fence_def)

text \<open>
  C10, as the code has it. After \<^verbatim>\<open>set(id, h)\<close>, \<^verbatim>\<open>get(id)\<close> returns \<open>h\<close>
  when \<open>h\<close> is truthy, that is, neither 0 nor \<^verbatim>\<open>NaN\<close> (a negative or an
  infinite \<open>h\<close> is returned as it is), and the default 200 when \<open>h\<close> is 0 or
  \<^verbatim>\<open>NaN\<close>: the falsy value falls through \<^verbatim>\<open>||\<close> to the default height.
\<close>

theorem get_after_set_height:
  "get (set_height c messageId h) messageId = (if truthy h then h else Num 200) \<and>
   get (set_height c messageId (Num r)) messageId = (if r = 0 then Num 200 else Num r) \<and>
   get (set_height c messageId NaN) messageId = Num 200 \<and>
   get (set_height c messageId Infinity) messageId = Infinity \<and>
   get (set_height c messageId NegInfinity) messageId = NegInfinity"
  by (simp add: get_def set_height_def defaultHeight_def)

theorem get_after_set_height_witness:
  "get (set_height Map.empty ''m1'' (Num (-40))) ''m1'' = Num (-40) \<and>
   get (set_height Map.empty ''m1'' (Num 0)) ''m1'' = Num 200 \<and>
   get (set_height Map.empty ''m1'' (Num 312.5)) ''m1'' = Num 312.5 \<and>
   get (set_height Map.empty ''m1'' NaN) ''m1'' = Num 200"
  using get_after_set_height [of Map.empty "''m1''" "Num (-40)" "-40"]
    get_after_set_height [of Map.empty "''m1''" "Num 0" 0]
    get_after_set_height [of Map.empty "''m1''" NaN "312.5"]
  by simp

text \<open>
  \<^verbatim>\<open>NaN\<close> is a number and is not zero, yet after it is recorded \<^verbatim>\<open>get\<close>
  returns the default 200 and not the recorded number.
\<close>

theorem get_nan_counterexample:
  "NaN \<noteq> Num 0 \<and>
   get (set_height Map.empty ''m1'' NaN) ''m1'' = Num 200 \<and>
   get (set_height Map.empty ''m1'' NaN) ''m1'' \<noteq> NaN"
  by (simp add: get_def set_height_def defaultHeight_def)

text \<open>
  C5, as the code has it. The height cache answers for every message and never
  fails. \<^verbatim>\<open>get\<close> returns the recorded height when one is recorded and is
  truthy (not zero, not \<^verbatim>\<open>NaN\<close>), and otherwise the default 200.
  \<^verbatim>\<open>estimate\<close> returns that same answer when the message's id has an entry (so
  200, not 0 and not a content-based estimate, for a recorded height of 0), and
  for an id without an entry the content-based estimate: 200, plus 100 for a
  content longer than 500 characters, plus a further 200 for one longer than
  1000, plus 150 for a fenced code block marker, plus 300 for an image part.
\<close>

theorem estimate_policy:
  "get c i = (case c i of None \<Rightarrow> Num 200 | Some h \<Rightarrow> if truthy h then h else Num 200) \<and>
   estimate c m =
     (case c (message_id m) of
        Some h \<Rightarrow> if truthy h then h else Num 200
      | None \<Rightarrow>
          Num (200 + (if 500 < contentLength m then 100 else 0)
                   + (if 1000 < contentLength m then 200 else 0)
                   + (if hasCode m then 150 else 0)
                   + (if hasImages m then 300 else 0)))"
  by (simp add: estimate_def has_def get_def defaultHeight_def split: option.split)

theorem estimate_policy_witness:
  "estimate (set_height Map.empty ''m1'' (Num 320))
     \<lparr>message_id = ''m1'', content = Some (replicate 1200 (CHR ''a'')), parts = None\<rparr>
     = Num 320 \<and>
   estimate (set_height Map.empty ''m1'' (Num 320))
     \<lparr>message_id = ''m2'', content = Some (replicate 1200 (CHR ''a'') @ fence),
      parts = Some [\<lparr>type_of = ''text''\<rparr>, \<lparr>type_of = ''image''\<rparr>]\<rparr> = Num 950 \<and>
   estimate (set_height Map.empty ''m1'' (Num 320))
     \<lparr>message_id = ''m3'', content = None, parts = None\<rparr> = Num 200"
  using estimate_policy [of "set_height Map.empty ''m1'' (Num 320)" "''m1''"
      "\<lparr>message_id = ''m1'', content = Some (replicate 1200 (CHR ''a'')), parts = None\<rparr>"]
    estimate_policy [of "set_height Map.empty ''m1'' (Num 320)" "''m1''"
      "\<lparr>message_id = ''m2'', content = Some (replicate 1200 (CHR ''a'') @ fence),
        parts = Some [\<lparr>type_of = ''text''\<rparr>, \<lparr>type_of = ''image''\<rparr>]\<rparr>"]
    estimate_policy [of "set_height Map.empty ''m1'' (Num 320)" "''m1''"
      "\<lparr>message_id = ''m3'', content = None, parts = None\<rparr>"]
  by (simp add: set_height_def contentLength_def hasCode_def hasImages_def
      includes_str_append)

text \<open>
  A height of 0 recorded for a message is present in the cache, yet the answer
  for that message is 200: neither the recorded height nor the content-based
  estimate, which is 300 for this message.
\<close>

theorem estimate_recorded_zero_counterexample:
  "has (set_height Map.empty ''m1'' (Num 0)) ''m1'' \<and>
   set_height Map.empty ''m1'' (Num 0) ''m1'' = Some (Num 0) \<and>
   estimate (set_height Map.empty ''m1'' (Num 0))
     \<lparr>message_id = ''m1'', content = Some (replicate 600 (CHR ''a'')), parts = None\<rparr>
     = Num 200 \<and>
   estimate Map.empty
     \<lparr>message_id = ''m1'', content = Some (replicate 600 (CHR ''a'')), parts = None\<rparr>
     = Num 300"
  by (simp add: estimate_def has_def get_def set_height_def defaultHeight_def
      contentLength_def hasCode_def hasImages_def no_fence_replicate)

text \<open>
  C6, as the code has it. \<^verbatim>\<open>set\<close> stores every height it is given and never
  fails. It leaves the answers for all other messages unchanged. A height of 0
  makes \<^verbatim>\<open>get\<close> answer the default 200 for that message, so the answer is
  unchanged exactly when it was 200 before; a negative height is stored and
  returned as it is.
\<close>

theorem set_height_unconditional:
  "(j \<noteq> i \<longrightarrow> get (set_height c i h) j = get c j) \<and>
   get (set_height c i (Num 0)) i = Num 200 \<and>
   (get (set_height c i (Num 0)) i = get c i \<longleftrightarrow> get c i = Num 200) \<and>
   (r < 0 \<longrightarrow> get (set_height c i (Num r)) i = Num r)"
  by (auto simp: get_def set_height_def defaultHeight_def)

theorem set_height_unconditional_witness:
  "get (set_height (set_height Map.empty ''m1'' (Num 320)) ''m1'' (Num (-5))) ''m2''
     = get (set_height Map.empty ''m1'' (Num 320)) ''m2'' \<and>
   get (set_height (set_height Map.empty ''m1'' (Num 320)) ''m1'' (Num 0)) ''m1''
     \<noteq> get (set_height Map.empty ''m1'' (Num 320)) ''m1'' \<and>
   get (set_height (set_height Map.empty ''m1'' (Num 320)) ''m1'' (Num (-5))) ''m1''
     = Num (-5)"
  using set_height_unconditional
    [where j = "''m2''" and i = "''m1''" and c = "set_height Map.empty ''m1'' (Num 320)"
       and h = "Num (-5)" and r = "-5"]
  by (simp add: get_def set_height_def)

text \<open>
  A measured height of 320 is replaced by the default after a height of 0 is
  recorded, and by -5 after a height of -5 is recorded.
\<close>

theorem set_nonsense_height_counterexample:
  "get (set_height Map.empty ''m1'' (Num 320)) ''m1'' = Num 320 \<and>
   get (set_height (set_height Map.empty ''m1'' (Num 320)) ''m1'' (Num 0)) ''m1''
     = Num 200 \<and>
   get (set_height (set_height Map.empty ''m1'' (Num 320)) ''m1'' (Num (-5))) ''m1''
     = Num (-5)"
  by (simp add: get_def set_height_def defaultHeight_def)

text \<open>
  C7, as the code has it. The cache is keyed by the message id alone and reads
  no content version. A recorded height that is truthy (not zero, not
  \<^verbatim>\<open>NaN\<close>) is the answer for every message with that id, whatever its content
  has become; recording heights for other ids does not change it, and only a
  later \<^verbatim>\<open>set\<close> for the same id replaces it (\<^verbatim>\<open>clear\<close> empties the whole
  cache).
\<close>

theorem measured_height_keyed_by_id:
  "(truthy h \<and> message_id m = i \<longrightarrow> estimate (set_height c i h) m = h) \<and>
   (truthy h \<and> message_id m = i \<and> j \<noteq> i \<longrightarrow>
      estimate (set_height (set_height c i h) j h') m = h) \<and>
   set_height (set_height c i h) i h' = set_height c i h' \<and>
   estimate (clear c) m = estimate Map.empty m"
  by (auto simp: estimate_def has_def get_def set_height_def clear_def)

theorem measured_height_keyed_by_id_witness:
  "estimate (set_height Map.empty ''m1'' (Num 320))
     \<lparr>message_id = ''m1'', content = Some (replicate 1200 (CHR ''a'')), parts = None\<rparr>
     = Num 320 \<and>
   estimate (set_height (set_height Map.empty ''m1'' (Num 320)) ''m2'' (Num 90))
     \<lparr>message_id = ''m1'', content = Some (replicate 1200 (CHR ''a'')), parts = None\<rparr>
     = Num 320"
  using measured_height_keyed_by_id
    [where h = "Num 320" and i = "''m1''" and c = Map.empty and j = "''m2''"
       and h' = "Num 90"
       and m = "\<lparr>message_id = ''m1'', content = Some (replicate 1200 (CHR ''a'')),
                  parts = None\<rparr>"]
  by simp

text \<open>
  A message measured at 320 whose content then grows to 1200 characters still
  gets the answer 320; the estimate recomputed from that content is 500.
\<close>

theorem stale_height_counterexample:
  "estimate (set_height Map.empty ''m1'' (Num 320))
     \<lparr>message_id = ''m1'', content = Some ''Hi'', parts = None\<rparr> = Num 320 \<and>
   estimate (set_height Map.empty ''m1'' (Num 320))
     \<lparr>message_id = ''m1'', content = Some (replicate 1200 (CHR ''a'')), parts = None\<rparr>
     = Num 320 \<and>
   estimate Map.empty
     \<lparr>message_id = ''m1'', content = Some (replicate 1200 (CHR ''a'')), parts = None\<rparr>
     = Num 500"
  by (simp add: estimate_def has_def get_def set_height_def defaultHeight_def
      contentLength_def hasCode_def hasImages_def no_fence_replicate)

section \<open>Properties of the debounced storage hook\<close>

lemma tracked_cases:
  assumes "tracked h"
  obtains "timers h = []"
  | i due v where "timers h = [(i, due, v)]" "timeoutRef h = Some i"
proof (cases "timers h")
  case Nil
  then show ?thesis using that by simp
next
  case (Cons x xs)
  obtain i due v where x: "x = (i, due, v)" by (cases x)
  from assms Cons have "xs = []" by (simp add: tracked_def)
  with assms Cons x show ?thesis using that by (simp add: tracked_def)
qed

lemma cleanup_cancels:
  assumes "tracked h"
  shows "timers (cleanup h) = []"
    and "storedValue (cleanup h) = storedValue h"
    and "setItemCalls (cleanup h) = setItemCalls h"
    and "nextHandle (cleanup h) = nextHandle h"
    and "timeoutRef (cleanup h) = timeoutRef h"
  using assms
  by (rule tracked_cases; simp add: cleanup_def clearTimeout_def split: option.split)+

lemma effect_replaces:
  assumes "tracked h"
  shows "timers (effect d now h) = [(nextHandle h, now + d, storedValue h)]"
    and "timeoutRef (effect d now h) = Some (nextHandle h)"
    and "storedValue (effect d now h) = storedValue h"
    and "setItemCalls (effect d now h) = setItemCalls h"
  using assms
  by (rule tracked_cases;
      simp add: effect_def setTimeout_def clearTimeout_def Let_def split: option.split)+

lemma tracked_elapse: "tracked h \<Longrightarrow> tracked (elapse k now h)"
  by (erule tracked_cases) (simp_all add: tracked_def elapse_def)

lemma elapse_fields:
  "storedValue (elapse k now h) = storedValue h"
  "timeoutRef (elapse k now h) = timeoutRef h"
  "nextHandle (elapse k now h) = nextHandle h"
  by (simp_all add: elapse_def)

lemma elapse_not_due:
  "timers h = [(i, due, v)] \<Longrightarrow> now < due \<Longrightarrow> elapse k now h = h"
  by (simp add: elapse_def)

lemma elapse_due:
  "timers h = [(i, due, v)] \<Longrightarrow> due \<le> now \<Longrightarrow>
   setItemCalls (elapse k now h) = setItemCalls h @ [(k, v)]"
  by (simp add: elapse_def)

lemma setStoredValue_same:
  "v = storedValue h \<Longrightarrow> setStoredValue k d t v h = elapse k t h"
  by (simp add: setStoredValue_def Let_def elapse_fields)

lemma setStoredValue_changed:
  assumes "tracked h" and "v \<noteq> storedValue h"
  shows "timers (setStoredValue k d t v h) = [(nextHandle h, t + d, v)]"
    and "timeoutRef (setStoredValue k d t v h) = Some (nextHandle h)"
    and "storedValue (setStoredValue k d t v h) = v"
    and "setItemCalls (setStoredValue k d t v h) = setItemCalls (elapse k t h)"
proof -
  let ?h1 = "(elapse k t h)\<lparr>storedValue := v\<rparr>"
  have t1: "tracked ?h1"
    using tracked_elapse [OF assms(1), of k t] by (simp add: tracked_def)
  have t2: "tracked (cleanup ?h1)"
    using cleanup_cancels(1,5) [OF t1] by (simp add: tracked_def)
  have eq: "setStoredValue k d t v h = effect d t (cleanup ?h1)"
    using assms(2) by (simp add: setStoredValue_def Let_def elapse_fields)
  show "timers (setStoredValue k d t v h) = [(nextHandle h, t + d, v)]"
    and "timeoutRef (setStoredValue k d t v h) = Some (nextHandle h)"
    and "storedValue (setStoredValue k d t v h) = v"
    and "setItemCalls (setStoredValue k d t v h) = setItemCalls (elapse k t h)"
    using effect_replaces [OF t2, of d t] cleanup_cancels(2,3,4) [OF t1]
    by (simp_all add: eq elapse_fields)
qed

lemma tracked_setStoredValue: "tracked h \<Longrightarrow> tracked (setStoredValue k d t v h)"
proof (cases "v = storedValue h")
  case True
  assume "tracked h"
  then show ?thesis using True by (simp add: setStoredValue_same tracked_elapse)
next
  case False
  assume "tracked h"
  from setStoredValue_changed(1,2) [OF this False, of k d t]
  show ?thesis by (simp add: tracked_def)
qed

lemma tracked_updates: "tracked h \<Longrightarrow> tracked (updates k d us h)"
  by (induction us arbitrary: h) (auto simp: tracked_setStoredValue)

lemma mount_reads_item:
  "storedValue (mount d now initialValue (JsonText v)) = v"
  "storedValue (mount d now initialValue NoItem) = initialValue"
  "storedValue (mount d now initialValue EmptyText) = initialValue"
  "storedValue (mount d now initialValue BadText) = initialValue"
  "storedValue (mount d now initialValue ReadError) = initialValue"
  by (simp_all add: mount_def effect_def setTimeout_def Let_def)

lemma tracked_mount: "tracked (mount d now initialValue item)"
  by (simp add: mount_def effect_def setTimeout_def tracked_def Let_def)

lemma updates_append: "updates k d (us @ vs) h = updates k d vs (updates k d us h)"
  by (induction us arbitrary: h) auto

lemma burst_pending:
  "rapid d ((t, v) # us) \<Longrightarrow> changing v (map snd us) \<Longrightarrow>
   timers h = [(i, t + d, v)] \<Longrightarrow> timeoutRef h = Some i \<Longrightarrow> storedValue h = v \<Longrightarrow>
   (\<exists>i'. timers (updates k d us h)
            = [(i', fst (last ((t, v) # us)) + d, snd (last ((t, v) # us)))]) \<and>
   setItemCalls (updates k d us h) = setItemCalls h"
proof (induction us arbitrary: t v h i)
  case Nil
  then show ?case by simp
next
  case (Cons u us)
  obtain t' v' where u: "u = (t', v')" by (cases u)
  from Cons.prems(1) u have gap: "t' < t + d" and rest: "rapid d ((t', v') # us)"
    by simp_all
  from Cons.prems(2,5) u have new: "v' \<noteq> storedValue h" and ch: "changing v' (map snd us)"
    by simp_all
  have tr: "tracked h"
    using Cons.prems(3,4) by (simp add: tracked_def)
  let ?h = "setStoredValue k d t' v' h"
  have idle: "elapse k t' h = h"
    using Cons.prems(3) gap by (rule elapse_not_due)
  note step = setStoredValue_changed [OF tr new, of k d t']
  from Cons.IH [OF rest ch step(1) step(2) step(3)] step(4) idle u
  show ?case by simp
qed

lemma burst_log:
  assumes "tracked h" and "rapid d ((t, v) # us)"
    and "changing (storedValue h) (v # map snd us)"
  shows "\<exists>i. timers (updates k d ((t, v) # us) h)
            = [(i, fst (last ((t, v) # us)) + d, snd (last ((t, v) # us)))]"
    and "setItemCalls (updates k d ((t, v) # us) h) = setItemCalls (elapse k t h)"
proof -
  from assms(3) have new: "v \<noteq> storedValue h" and ch: "changing v (map snd us)"
    by simp_all
  note step = setStoredValue_changed [OF assms(1) new, of k d t]
  from burst_pending [OF assms(2) ch step(1) step(2) step(3), of k] step(4)
  show "\<exists>i. timers (updates k d ((t, v) # us) h)
            = [(i, fst (last ((t, v) # us)) + d, snd (last ((t, v) # us)))]"
    and "setItemCalls (updates k d ((t, v) # us) h) = setItemCalls (elapse k t h)"
    by simp_all
qed

text \<open>
  C1, as the code has it. For every key, after any earlier calls of the setter,
  take a sequence of one or more calls, each less than the debounce delay after
  the one before it and each with a value that differs from the one stored at
  that moment. The backend receives exactly one write for that key, and its
  payload is the last value of the sequence: once the delay has passed after the
  last call, the calls of \<^verbatim>\<open>setItem\<close> are those made before the first call of
  the sequence, followed by that single write.
\<close>

theorem debounce_coalesces:
  assumes "rapid d ((t, v) # us)"
    and "changing (storedValue (updates k d history (mount d t0 initialValue item)))
           (v # map snd us)"
    and "fst (last ((t, v) # us)) + d \<le> T"
  shows "setItemCalls
           (elapse k T (updates k d (history @ (t, v) # us) (mount d t0 initialValue item)))
         = setItemCalls (elapse k t (updates k d history (mount d t0 initialValue item)))
           @ [(k, snd (last ((t, v) # us)))]"
proof -
  let ?h = "updates k d history (mount d t0 initialValue item)"
  have tr: "tracked ?h" by (simp add: tracked_updates tracked_mount)
  from burst_log [OF tr assms(1,2), of k] obtain i
    where "timers (updates k d ((t, v) # us) ?h)
             = [(i, fst (last ((t, v) # us)) + d, snd (last ((t, v) # us)))]"
      and "setItemCalls (updates k d ((t, v) # us) ?h) = setItemCalls (elapse k t ?h)"
    by blast
  then show ?thesis using assms(3) by (simp add: updates_append elapse_due)
qed

text \<open>
  The value \<^verbatim>\<open>payloadA\<close> and 200 ms later \<^verbatim>\<open>payloadB\<close>, with the default
  delay: one write, of \<^verbatim>\<open>payloadB\<close>.
\<close>

theorem debounce_coalesces_witness:
  "rapid defaultDelay [(0, ''payloadA''), (200, ''payloadB'')] \<and>
   changing (storedValue (updates ''spaces'' defaultDelay [] (mount defaultDelay 0 ''[]'' NoItem)))
     [''payloadA'', ''payloadB''] \<and>
   setItemCalls
     (elapse ''spaces'' 1200
        (updates ''spaces'' defaultDelay [(0, ''payloadA''), (200, ''payloadB'')]
           (mount defaultDelay 0 ''[]'' NoItem)))
     = [(''spaces'', ''payloadB'')]"
  using debounce_coalesces [of defaultDelay 0 "''payloadA''" "[(200, ''payloadB'')]"
      "''spaces''" "[]" 0 "''[]''" NoItem 1200]
  by (simp add: defaultDelay_def elapse_def mount_def effect_def setTimeout_def Let_def)

text \<open>
  The value \<^verbatim>\<open>A\<close>, the same value again 900 ms later, and \<^verbatim>\<open>B\<close> another 900
  ms later, with a delay of 1000 ms. The second call changes nothing and restarts
  no timeout, so \<^verbatim>\<open>A\<close> is written at 1000 ms and \<^verbatim>\<open>B\<close> at 2800 ms: two
  writes.
\<close>

theorem repeated_value_counterexample:
  "rapid 1000 [(0, ''A''), (900, ''A''), (1800, ''B'')] \<and>
   setItemCalls
     (elapse ''spaces'' 2800
        (updates ''spaces'' 1000 [(0, ''A''), (900, ''A''), (1800, ''B'')]
           (mount 1000 0 ''[]'' NoItem)))
     = [(''spaces'', ''A''), (''spaces'', ''B'')]"
  by (simp add: elapse_def mount_def effect_def setTimeout_def clearTimeout_def
      setStoredValue_def cleanup_def Let_def)

text \<open>
  C3, as the code has it. The hook has no maximum delay: while calls of the
  setter for a key keep arriving less than the debounce delay apart, each with a
  value that differs from the one stored, no write reaches the backend, however
  long the burst lasts; the write is made only once the delay has passed after
  the last call.
\<close>

theorem no_flush_during_burst:
  assumes "rapid d ((t, v) # us)"
    and "changing (storedValue (updates k d history (mount d t0 initialValue item)))
           (v # map snd us)"
    and "T < fst (last ((t, v) # us)) + d"
  shows "setItemCalls
           (elapse k T (updates k d (history @ (t, v) # us) (mount d t0 initialValue item)))
         = setItemCalls (elapse k t (updates k d history (mount d t0 initialValue item)))"
proof -
  let ?h = "updates k d history (mount d t0 initialValue item)"
  have tr: "tracked ?h" by (simp add: tracked_updates tracked_mount)
  from burst_log [OF tr assms(1,2), of k] obtain i
    where "timers (updates k d ((t, v) # us) ?h)
             = [(i, fst (last ((t, v) # us)) + d, snd (last ((t, v) # us)))]"
      and "setItemCalls (updates k d ((t, v) # us) ?h) = setItemCalls (elapse k t ?h)"
    by blast
  then show ?thesis using assms(3) by (simp add: updates_append elapse_not_due)
qed

theorem no_flush_during_burst_witness:
  "rapid defaultDelay [(0, ''v1''), (900, ''v2''), (1800, ''v3'')] \<and>
   changing (storedValue (updates ''spaces'' defaultDelay [] (mount defaultDelay 0 ''[]'' NoItem)))
     [''v1'', ''v2'', ''v3''] \<and>
   setItemCalls
     (elapse ''spaces'' 2799
        (updates ''spaces'' defaultDelay [(0, ''v1''), (900, ''v2''), (1800, ''v3'')]
           (mount defaultDelay 0 ''[]'' NoItem)))
     = []"
  using no_flush_during_burst [of defaultDelay 0 "''v1''" "[(900, ''v2''), (1800, ''v3'')]"
      "''spaces''" "[]" 0 "''[]''" NoItem 2799]
  by (simp add: defaultDelay_def elapse_def mount_def effect_def setTimeout_def Let_def)

text \<open>
  Seven calls 900 ms apart, with a delay of 1000 ms: 6399 ms after the first
  call, more than five times the delay, the backend has received no write.
\<close>

theorem unbounded_deferral_counterexample:
  "rapid 1000
     [(0, ''v1''), (900, ''v2''), (1800, ''v3''), (2700, ''v4''), (3600, ''v5''),
      (4500, ''v6''), (5400, ''v7'')] \<and>
   5 * 1000 < (6399::nat) \<and>
   setItemCalls
     (elapse ''spaces'' 6399
        (updates ''spaces'' 1000
           [(0, ''v1''), (900, ''v2''), (1800, ''v3''), (2700, ''v4''), (3600, ''v5''),
            (4500, ''v6''), (5400, ''v7'')]
           (mount 1000 0 ''[]'' NoItem)))
     = []"
  by (simp add: elapse_def mount_def effect_def setTimeout_def clearTimeout_def
      setStoredValue_def cleanup_def Let_def)

section \<open>Properties of the storage write queue\<close>























lemma process_loop_count_le:
  "unattempted (process_loop s) \<le> unattempted s \<and>
   setItemAttempts (process_loop s) = setItemAttempts s"
  by (cases "queue s") (auto simp: process_loop_def unattempted_def split: option.splits)

lemma add_count:
  "length (setItemAttempts (add k v p s)) + unattempted (add k v p s)
     \<le> length (setItemAttempts s) + unattempted s + 1"
proof -
  let ?s = "s\<lparr>queue := sort_key (\<lambda>item. priorityOrder (priority item))
                    (filter (\<lambda>item. key item \<noteq> k) (queue s)
                     @ [\<lparr>key = k, item_value = v, priority = p\<rparr>])\<rparr>"
  have "length (filter (\<lambda>item. key item \<noteq> k) (queue s)) \<le> length (queue s)"
    by simp
  then have a: "unattempted ?s \<le> unattempted s + 1"
    and b: "setItemAttempts ?s = setItemAttempts s"
    by (simp_all add: unattempted_def)
  have c: "unattempted (process ?s) \<le> unattempted ?s
      \<and> setItemAttempts (process ?s) = setItemAttempts ?s"
    using process_loop_count_le [of "?s\<lparr>processing := True\<rparr>"]
    by (simp add: process_def unattempted_def)
  show ?thesis
    using a b c by (auto simp: add_def Let_def simp del: length_filter_le)
qed

lemma idle_count:
  "length (setItemAttempts (idle ok s)) + unattempted (idle ok s)
     \<le> length (setItemAttempts s) + unattempted s"
proof (cases "scheduled s")
  case None
  then show ?thesis by (simp add: idle_def)
next
  case (Some item)
  let ?s = "s\<lparr>scheduled := None, setItemAttempts := setItemAttempts s @ [item]\<rparr>"
  have a: "length (setItemAttempts ?s) + unattempted ?s
      = length (setItemAttempts s) + unattempted s"
    using Some by (simp add: unattempted_def)
  show ?thesis
  proof (cases ok)
    case True
    let ?t = "?s\<lparr>localStorage := (localStorage s)(key item \<mapsto> item_value item)\<rparr>"
    have "unattempted (process_loop ?t) \<le> unattempted ?t \<and>
          setItemAttempts (process_loop ?t) = setItemAttempts ?t"
      by (rule process_loop_count_le)
    moreover have "unattempted ?t = unattempted ?s" "setItemAttempts ?t = setItemAttempts ?s"
      by (simp_all add: unattempted_def)
    ultimately show ?thesis using a Some True by (simp add: idle_def Let_def)
  next
    case False
    then show ?thesis using a Some by (simp add: idle_def Let_def)
  qed
qed

lemma queue_run_count:
  "length (setItemAttempts (queue_run es s)) + unattempted (queue_run es s)
     \<le> length (setItemAttempts s) + unattempted s + length (filter is_add es)"
proof (induction es arbitrary: s)
  case Nil
  then show ?case by simp
next
  case (Cons e es)
  have step: "length (setItemAttempts (queue_step e s)) + unattempted (queue_step e s)
     \<le> length (setItemAttempts s) + unattempted s + (if is_add e then 1 else 0)"
    using add_count idle_count by (cases e) (simp_all)
  from Cons.IH [of "queue_step e s"] step show ?case
    by (cases "is_add e") simp_all
qed

text \<open>
  C4, as the code has it. A pending write whose flush fails is attempted exactly
  once: the failing callback leaves the item neither in the queue nor scheduled,
  stores nothing, and nothing requeues it; the queue has no retry, no backoff and
  no failure callback. Over any run, the write attempts are at most as many as
  the writes added, so no write is retried for ever.
\<close>

theorem failed_write_dropped:
  "(scheduled s = Some item \<longrightarrow>
      queue (idle False s) = queue s \<and>
      scheduled (idle False s) = None \<and>
      localStorage (idle False s) = localStorage s \<and>
      setItemAttempts (idle False s) = setItemAttempts s @ [item]) \<and>
   length (setItemAttempts (queue_run es storageQueue)) \<le> length (filter is_add es)"
proof -
  have "length (setItemAttempts (queue_run es storageQueue))
      \<le> length (filter is_add es)"
    using queue_run_count [of es storageQueue]
    by (simp add: storageQueue_def unattempted_def)
  then show ?thesis by (simp add: idle_def Let_def)
qed

theorem failed_write_dropped_witness:
  "scheduled (queue_run [Add ''spaces'' ''s1'' Normal] storageQueue)
     = Some \<lparr>key = ''spaces'', item_value = ''s1'', priority = Normal\<rparr> \<and>
   queue (queue_run [Add ''spaces'' ''s1'' Normal, Idle False] storageQueue) = [] \<and>
   scheduled (queue_run [Add ''spaces'' ''s1'' Normal, Idle False] storageQueue) = None \<and>
   localStorage (queue_run [Add ''spaces'' ''s1'' Normal, Idle False] storageQueue) ''spaces''
     = None \<and>
   length (setItemAttempts
             (queue_run [Add ''spaces'' ''s1'' Normal, Idle False, Idle True] storageQueue))
     \<le> 1"
  using failed_write_dropped
    [of "queue_run [Add ''spaces'' ''s1'' Normal] storageQueue"
        "\<lparr>key = ''spaces'', item_value = ''s1'', priority = Normal\<rparr>"
        "[Add ''spaces'' ''s1'' Normal, Idle False, Idle True]"]
  by (simp add: storageQueue_def add_def process_def process_loop_def)

text \<open>
  A write of the key \<^verbatim>\<open>spaces\<close> fails once. Three further idle periods later it
  has been attempted that one time only, it is neither queued nor scheduled, and
  the backend holds nothing for the key.
\<close>

theorem no_retry_counterexample:
  "setItemAttempts
     (queue_run [Add ''spaces'' ''s1'' Normal, Idle False, Idle True, Idle True, Idle True]
        storageQueue)
     = [\<lparr>key = ''spaces'', item_value = ''s1'', priority = Normal\<rparr>] \<and>
   queue
     (queue_run [Add ''spaces'' ''s1'' Normal, Idle False, Idle True, Idle True, Idle True]
        storageQueue) = [] \<and>
   scheduled
     (queue_run [Add ''spaces'' ''s1'' Normal, Idle False, Idle True, Idle True, Idle True]
        storageQueue) = None \<and>
   localStorage
     (queue_run [Add ''spaces'' ''s1'' Normal, Idle False, Idle True, Idle True, Idle True]
        storageQueue) ''spaces'' = None"
  by (simp add: storageQueue_def add_def process_def process_loop_def idle_def)

section \<open>Properties of the virtual message list\<close>

lemma getRowHeight_streaming:
  "getRowHeight (s\<lparr>isStreaming := b, currentMessageId := c\<rparr>) = getRowHeight s"
  by (rule ext) (simp add: getRowHeight_def)

text \<open>
  C8, as the code has it. The rows in the DOM are the rows of the window that the
  list computes from its height, width, item count, row heights and overscan
  count of 5 at the current scroll offset. The streaming state is not passed to
  the list and does not change that window: a streaming item is mounted exactly
  when its index lies in the window, and the streaming flag only reaches the
  message component of a row that is mounted.
\<close>

theorem mounted_ignores_streaming:
  "mounted window (s\<lparr>isStreaming := b, currentMessageId := c\<rparr>) scroll
     = mounted window s scroll \<and>
   map fst (rendered window s scroll) = mounted window s scroll \<and>
   (rendered window s scroll ! n = (i, Some r) \<and> n < length (rendered window s scroll)
      \<longrightarrow> i \<in> set (mounted window s scroll) \<and> Row s i = Some r)"
proof -
  have "mounted window (s\<lparr>isStreaming := b, currentMessageId := c\<rparr>) scroll
      = mounted window s scroll"
    by (simp add: mounted_def listProps_def getRowHeight_streaming split: option.split)
  moreover have "map fst (rendered window s scroll) = mounted window s scroll"
    by (simp add: rendered_def comp_def)
  moreover have "rendered window s scroll ! n = (i, Some r)
      \<and> n < length (rendered window s scroll)
      \<longrightarrow> i \<in> set (mounted window s scroll) \<and> Row s i = Some r"
    by (auto simp: rendered_def)
  ultimately show ?thesis by blast
qed

theorem mounted_ignores_streaming_witness:
  "mounted specWindow
     ((initialList
         (replicate 11 \<lparr>message_id = ''old'', content = Some ''Hi'', parts = None\<rparr>
          @ [\<lparr>message_id = ''new'', content = Some ''Hel'', parts = None\<rparr>])
         (Some (400, 300)))
      \<lparr>isStreaming := True, currentMessageId := Some ''new''\<rparr>) 2000
     = [5, 6, 7, 8, 9, 10, 11] \<and>
   mounted specWindow
     (initialList
        (replicate 11 \<lparr>message_id = ''old'', content = Some ''Hi'', parts = None\<rparr>
         @ [\<lparr>message_id = ''new'', content = Some ''Hel'', parts = None\<rparr>])
        (Some (400, 300))) 2000
     = [5, 6, 7, 8, 9, 10, 11] \<and>
   rendered specWindow
     (initialList
        (replicate 11 \<lparr>message_id = ''old'', content = Some ''Hi'', parts = None\<rparr>
         @ [\<lparr>message_id = ''new'', content = Some ''Hel'', parts = None\<rparr>])
        (Some (400, 300))) 2000 ! 0
     = (5, Some \<lparr>row_message = \<lparr>message_id = ''old'', content = Some ''Hi'', parts = None\<rparr>,
                  isLast = False, row_isStreaming = False\<rparr>) \<and>
   Row (initialList
          (replicate 11 \<lparr>message_id = ''old'', content = Some ''Hi'', parts = None\<rparr>
           @ [\<lparr>message_id = ''new'', content = Some ''Hel'', parts = None\<rparr>])
          (Some (400, 300))) 5
     = Some \<lparr>row_message = \<lparr>message_id = ''old'', content = Some ''Hi'', parts = None\<rparr>,
              isLast = False, row_isStreaming = False\<rparr>"
  using mounted_ignores_streaming
    [where window = specWindow and b = True and c = "Some ''new''" and scroll = 2000
       and n = 0 and i = 5
       and s = "initialList
         (replicate 11 \<lparr>message_id = ''old'', content = Some ''Hi'', parts = None\<rparr>
          @ [\<lparr>message_id = ''new'', content = Some ''Hel'', parts = None\<rparr>])
         (Some (400, 300))"
       and r = "\<lparr>row_message = \<lparr>message_id = ''old'', content = Some ''Hi'', parts = None\<rparr>,
                 isLast = False, row_isStreaming = False\<rparr>"]
  by (simp add: rendered_def Row_def mounted_def specWindow_def computeWindow_def
      listProps_def initialList_def getRowHeight_def topOffset_def upt_rec Let_def
      nth_append)

text \<open>
  Twelve messages of the default height in a viewport of height 400, scrolled to
  the top, with the last message streaming: the window holds the rows 0 to 6, and
  the streaming message, row 11, is not mounted.
\<close>

theorem streaming_unmounted_counterexample:
  "Row ((initialList
           (replicate 11 \<lparr>message_id = ''old'', content = Some ''Hi'', parts = None\<rparr>
            @ [\<lparr>message_id = ''new'', content = Some ''Hel'', parts = None\<rparr>])
           (Some (400, 300)))
        \<lparr>isStreaming := True, currentMessageId := Some ''new''\<rparr>) 11
     = Some \<lparr>row_message = \<lparr>message_id = ''new'', content = Some ''Hel'', parts = None\<rparr>,
             isLast = True, row_isStreaming = True\<rparr> \<and>
   mounted specWindow
     ((initialList
         (replicate 11 \<lparr>message_id = ''old'', content = Some ''Hi'', parts = None\<rparr>
          @ [\<lparr>message_id = ''new'', content = Some ''Hel'', parts = None\<rparr>])
         (Some (400, 300)))
      \<lparr>isStreaming := True, currentMessageId := Some ''new''\<rparr>) 0
     = [0, 1, 2, 3, 4, 5, 6] \<and>
   11 \<notin> set (mounted specWindow
     ((initialList
         (replicate 11 \<lparr>message_id = ''old'', content = Some ''Hi'', parts = None\<rparr>
          @ [\<lparr>message_id = ''new'', content = Some ''Hel'', parts = None\<rparr>])
         (Some (400, 300)))
      \<lparr>isStreaming := True, currentMessageId := Some ''new''\<rparr>) 0)"
  by (simp add: Row_def mounted_def specWindow_def computeWindow_def listProps_def
      initialList_def getRowHeight_def topOffset_def upt_rec Let_def nth_append)

lemma foldl_add_sum_list:
  "foldl (\<lambda>sum i. sum + f i) (a::real) xs = a + sum_list (map f xs)"
  by (induction xs arbitrary: a) simp_all

lemma totalHeight_sum:
  "totalHeight s
     = (\<Sum>i<length (messages s).
          case rowHeights s i of None \<Rightarrow> 200 | Some h \<Rightarrow> if h = 0 then 200 else h)"
proof -
  have "totalHeight s = sum_list (map (getRowHeight s) [0..<length (messages s)])"
    by (simp add: totalHeight_def foldl_add_sum_list)
  also have "\<dots> = sum (getRowHeight s) {..<length (messages s)}"
    by (simp add: interv_sum_list_conv_sum_set_nat atLeast0LessThan)
  finally show ?thesis by (simp add: getRowHeight_def)
qed

lemma listHeight_ref:
  "listHeight s = (case listRef s of None \<Rightarrow> 0 | Some (h, w) \<Rightarrow> h)"
  by (simp add: listHeight_def split: option.split)

text \<open>
  C9, as the code has it. When a message is appended, the mounted list is asked
  to scroll the new last item to the end of the viewport exactly when the flag
  \<^verbatim>\<open>isNearBottom\<close> is set. A scroll the code did not request sets the flag when
  it leaves the viewport's bottom edge less than 100 units from the total height
  (the sum of the row heights, measured or 200), and resets it otherwise: a
  message appended right after such a scroll is scrolled into view in the first
  case and not in the second. A scroll the code requested and a later change of
  a row's height leave the flag as it is, whatever the distance has become.
\<close>

theorem follow_on_append:
  "(\<not> scrollUpdateWasRequested ev \<longrightarrow>
      scrollEffect (handleScroll ev s) (appendMessage m (handleScroll ev s))
        = (if distanceFromBottom s (scrollOffset ev) < 100 \<and> listRef s \<noteq> None
           then Some (ScrollToItem (length (messages s)) AlignEnd)
           else None)) \<and>
   (scrollUpdateWasRequested ev \<longrightarrow> handleScroll ev s = s) \<and>
   isNearBottom (setRowHeight index h s) = isNearBottom s \<and>
   scrollEffect s (setRowHeight index h s) = None \<and>
   scrollEffect s (appendMessage m s)
     = (if isNearBottom s \<and> listRef s \<noteq> None
        then Some (ScrollToItem (length (messages s)) AlignEnd)
        else None) \<and>
   distanceFromBottom s offset
     = (\<Sum>i<length (messages s).
          case rowHeights s i of None \<Rightarrow> 200 | Some h \<Rightarrow> if h = 0 then 200 else h)
       - (offset + (case listRef s of None \<Rightarrow> 0 | Some (h, w) \<Rightarrow> h))"
proof -
  have "distanceFromBottom s offset
     = (\<Sum>i<length (messages s).
          case rowHeights s i of None \<Rightarrow> 200 | Some h \<Rightarrow> if h = 0 then 200 else h)
       - (offset + (case listRef s of None \<Rightarrow> 0 | Some (h, w) \<Rightarrow> h))"
    by (simp only: distanceFromBottom_def totalHeight_sum listHeight_ref)
  moreover have "isNearBottom (setRowHeight index h s) = isNearBottom s"
    by (simp add: setRowHeight_def)
  moreover have "scrollEffect s (setRowHeight index h s) = None"
    by (simp add: scrollEffect_def setRowHeight_def)
  moreover have "scrollEffect s (appendMessage m s)
     = (if isNearBottom s \<and> listRef s \<noteq> None
        then Some (ScrollToItem (length (messages s)) AlignEnd)
        else None)"
    by (simp add: scrollEffect_def appendMessage_def autoScroll_def split: option.split)
  moreover have "\<not> scrollUpdateWasRequested ev \<longrightarrow>
      scrollEffect (handleScroll ev s) (appendMessage m (handleScroll ev s))
        = (if distanceFromBottom s (scrollOffset ev) < 100 \<and> listRef s \<noteq> None
           then Some (ScrollToItem (length (messages s)) AlignEnd)
           else None)"
    by (simp add: scrollEffect_def handleScroll_def appendMessage_def autoScroll_def
        split: option.split)
  moreover have "scrollUpdateWasRequested ev \<longrightarrow> handleScroll ev s = s"
    by (simp add: handleScroll_def)
  ultimately show ?thesis by blast
qed

text \<open>
  Three messages, the second measured at 150, in a viewport of height 400: the
  total height is 550. After the user scrolls to the offset 100 the bottom edge
  is 50 units from the end and an appended message is scrolled into view; after
  the user scrolls to the offset 0 it is 150 units away and nothing is requested.
  A requested scroll to the offset 0 leaves the list as it was.
\<close>

theorem follow_on_append_witness:
  "distanceFromBottom
     (setRowHeight 1 150
        (initialList (replicate 3 \<lparr>message_id = ''m'', content = None, parts = None\<rparr>)
           (Some (400, 300)))) 100 = 50 \<and>
   scrollEffect
     (handleScroll \<lparr>scrollOffset = 100, scrollUpdateWasRequested = False\<rparr>
        (setRowHeight 1 150
           (initialList (replicate 3 \<lparr>message_id = ''m'', content = None, parts = None\<rparr>)
              (Some (400, 300)))))
     (appendMessage \<lparr>message_id = ''n'', content = None, parts = None\<rparr>
        (handleScroll \<lparr>scrollOffset = 100, scrollUpdateWasRequested = False\<rparr>
           (setRowHeight 1 150
              (initialList (replicate 3 \<lparr>message_id = ''m'', content = None, parts = None\<rparr>)
                 (Some (400, 300))))))
     = Some (ScrollToItem 3 AlignEnd) \<and>
   distanceFromBottom
     (setRowHeight 1 150
        (initialList (replicate 3 \<lparr>message_id = ''m'', content = None, parts = None\<rparr>)
           (Some (400, 300)))) 0 = 150 \<and>
   scrollEffect
     (handleScroll \<lparr>scrollOffset = 0, scrollUpdateWasRequested = False\<rparr>
        (setRowHeight 1 150
           (initialList (replicate 3 \<lparr>message_id = ''m'', content = None, parts = None\<rparr>)
              (Some (400, 300)))))
     (appendMessage \<lparr>message_id = ''n'', content = None, parts = None\<rparr>
        (handleScroll \<lparr>scrollOffset = 0, scrollUpdateWasRequested = False\<rparr>
           (setRowHeight 1 150
              (initialList (replicate 3 \<lparr>message_id = ''m'', content = None, parts = None\<rparr>)
                 (Some (400, 300))))))
     = None \<and>
   handleScroll \<lparr>scrollOffset = 0, scrollUpdateWasRequested = True\<rparr>
     (setRowHeight 1 150
        (initialList (replicate 3 \<lparr>message_id = ''m'', content = None, parts = None\<rparr>)
           (Some (400, 300))))
     = setRowHeight 1 150
        (initialList (replicate 3 \<lparr>message_id = ''m'', content = None, parts = None\<rparr>)
           (Some (400, 300)))"
  using follow_on_append
      [where ev = "\<lparr>scrollOffset = 100, scrollUpdateWasRequested = False\<rparr>"
         and s = "setRowHeight 1 150
           (initialList (replicate 3 \<lparr>message_id = ''m'', content = None, parts = None\<rparr>)
              (Some (400, 300)))"
         and m = "\<lparr>message_id = ''n'', content = None, parts = None\<rparr>"
         and offset = 100 and index = 0 and h = 0]
    follow_on_append
      [where ev = "\<lparr>scrollOffset = 0, scrollUpdateWasRequested = False\<rparr>"
         and s = "setRowHeight 1 150
           (initialList (replicate 3 \<lparr>message_id = ''m'', content = None, parts = None\<rparr>)
              (Some (400, 300)))"
         and m = "\<lparr>message_id = ''n'', content = None, parts = None\<rparr>"
         and offset = 0 and index = 0 and h = 0]
    follow_on_append
      [where ev = "\<lparr>scrollOffset = 0, scrollUpdateWasRequested = True\<rparr>"
         and s = "setRowHeight 1 150
           (initialList (replicate 3 \<lparr>message_id = ''m'', content = None, parts = None\<rparr>)
              (Some (400, 300)))"
         and m = "\<lparr>message_id = ''n'', content = None, parts = None\<rparr>"
         and offset = 0 and index = 0 and h = 0]
  by (simp add: setRowHeight_def initialList_def lessThan_Suc eval_nat_numeral)

text \<open>
  Three messages of the default height in a viewport of height 400. The user
  scrolls to the offset 50, which leaves the bottom edge 150 units from the end.
  Then the first row is measured at 100: the bottom edge is now 50 units from the
  end, within the threshold, yet an appended message requests no scroll.
\<close>

theorem stale_near_bottom_counterexample:
  "distanceFromBottom
     (initialList (replicate 3 \<lparr>message_id = ''m'', content = None, parts = None\<rparr>)
        (Some (400, 300))) 50 = 150 \<and>
   distanceFromBottom
     (setRowHeight 0 100
        (handleScroll \<lparr>scrollOffset = 50, scrollUpdateWasRequested = False\<rparr>
           (initialList (replicate 3 \<lparr>message_id = ''m'', content = None, parts = None\<rparr>)
              (Some (400, 300))))) 50 = 50 \<and>
   listRef
     (setRowHeight 0 100
        (handleScroll \<lparr>scrollOffset = 50, scrollUpdateWasRequested = False\<rparr>
           (initialList (replicate 3 \<lparr>message_id = ''m'', content = None, parts = None\<rparr>)
              (Some (400, 300))))) = Some (400, 300) \<and>
   scrollEffect
     (setRowHeight 0 100
        (handleScroll \<lparr>scrollOffset = 50, scrollUpdateWasRequested = False\<rparr>
           (initialList (replicate 3 \<lparr>message_id = ''m'', content = None, parts = None\<rparr>)
              (Some (400, 300)))))
     (appendMessage \<lparr>message_id = ''n'', content = None, parts = None\<rparr>
        (setRowHeight 0 100
           (handleScroll \<lparr>scrollOffset = 50, scrollUpdateWasRequested = False\<rparr>
              (initialList (replicate 3 \<lparr>message_id = ''m'', content = None, parts = None\<rparr>)
                 (Some (400, 300))))))
     = None"
  by (simp add: scrollEffect_def appendMessage_def autoScroll_def setRowHeight_def
      handleScroll_def distanceFromBottom_def totalHeight_def listHeight_def
      getRowHeight_def initialList_def upt_rec)

end
